theory Spec2Isabelle
  imports
    Complex_Main
    "HOL-Library.Word"
    "HOL-Library.Char_ord"
    "HOL-Library.List_Lexorder"
    "HOL-Library.Multiset"
begin

section \<open>Exceptions\<close>

text \<open>
  The exceptions that the modelled code can raise. \<open>ValueError\<close> carries the offending
  value named in its message; the others carry nothing the properties below depend on.
  Python floats are idealised as reals throughout.
\<close>

datatype error =
    AssertionError
  | ZeroDivisionError
  | ValueError string
  | RuntimeError
  | OpenError
  | NameError

text \<open>Python's \<open>a / b\<close> with a float numerator and an integer denominator.\<close>

definition py_truediv :: "real \<Rightarrow> int \<Rightarrow> error + real" where
  "py_truediv a b = (if b = 0 then Inl ZeroDivisionError else Inr (a / real_of_int b))"

text \<open>Python's \<open>int(x)\<close> on a float: truncation towards zero.\<close>

definition py_int :: "real \<Rightarrow> int" where
  "py_int x = (if 0 \<le> x then \<lfloor>x\<rfloor> else \<lceil>x\<rceil>)"

section \<open>Learning-rate schedule (\<open>llm_pretrain.py\<close>, class \<open>LRSchedule\<close>)\<close>

record LRSchedule =
  lr :: real
  t1 :: int
  t2 :: int
  t3 :: int
  decay_type :: string

definition LRSchedule_init ::
  "real \<Rightarrow> int \<Rightarrow> real \<Rightarrow> real \<Rightarrow> string \<Rightarrow> error + LRSchedule" where
  "LRSchedule_init base_lr n_steps warmup decay dtype =
     (let a = py_int (real_of_int n_steps * warmup);
          b = py_int (real_of_int n_steps * (1 - decay));
          c = n_steps
      in if \<not> a \<le> b then Inl AssertionError
         else if \<not> (dtype = ''linear'' \<or> dtype = ''cosine'') then Inl AssertionError
         else Inr \<lparr>lr = base_lr, t1 = a, t2 = b, t3 = c, decay_type = dtype\<rparr>)"

definition get_lr :: "LRSchedule \<Rightarrow> int \<Rightarrow> error + real" where
  "get_lr s step =
     (if step < t1 s then py_truediv (lr s * real_of_int step) (t1 s)
      else if step < t2 s then Inr (lr s)
      else if step < t3 s then
        (case py_truediv (real_of_int (step - t2 s)) (t3 s - t2 s) of
           Inl e \<Rightarrow> Inl e
         | Inr progress \<Rightarrow>
             if decay_type s = ''linear'' then Inr (lr s * (1 - progress))
             else if decay_type s = ''cosine'' then Inr (0.5 * lr s * (1 + cos (progress * pi)))
             else Inr 0)
      else Inr 0)"

section \<open>Token shards and batches (\<open>llm_pretrain.py\<close>, class \<open>TokenDataset\<close>)\<close>

text \<open>
  A shard is an array of unsigned 16-bit token ids. A batch is the pair \<open>(tokens, labels)\<close>
  of two-dimensional int64 tensors, kept as lists of rows.
\<close>

type_synonym token = "16 word"
type_synonym tensor2d = "64 word list list"
type_synonym batch = "tensor2d \<times> tensor2d"

record TokenDataset =
  shards :: "string list"
  batch_size :: int
  seq_len :: int
  toks_per_batch :: int

text \<open>
  The sources of randomness of \<open>torch\<close>, as the values they return: \<open>randperm n\<close> for
  \<open>torch.randperm(n)\<close> and \<open>randint low high\<close> for \<open>torch.randint(low, high, size=(1,)).item()\<close>.
\<close>

record rng =
  randperm :: "nat \<Rightarrow> nat list"
  randint :: "int \<Rightarrow> int \<Rightarrow> int"

definition is_rng :: "rng \<Rightarrow> bool" where
  "is_rng r \<longleftrightarrow> (\<forall>n. mset (randperm r n) = mset [0..<n])"

text \<open>\<open>Path.glob("*.bin")\<close> keeps the directory entries whose name ends in \<open>.bin\<close>.\<close>

definition ends_with :: "string \<Rightarrow> string \<Rightarrow> bool" where
  "ends_with suf s \<longleftrightarrow> length suf \<le> length s \<and> drop (length s - length suf) s = suf"

definition glob_bin :: "string list \<Rightarrow> string list" where
  "glob_bin listing = filter (ends_with ''.bin'') listing"

text \<open>
  \<open>TokenDataset.__init__\<close>, over the names of the entries of \<open>dataset_dir\<close> in the order
  the file system enumerates them. The constructor has no failing branch.
\<close>

definition TokenDataset_init :: "string list \<Rightarrow> int \<Rightarrow> int \<Rightarrow> error + TokenDataset" where
  "TokenDataset_init listing bsize slen =
     Inr \<lparr>shards = sort (glob_bin listing), batch_size = bsize, seq_len = slen,
          toks_per_batch = bsize * (slen + 1)\<rparr>"

text \<open>Python's \<open>xs[a:b]\<close>: negative bounds count from the end, all bounds are clipped.\<close>

definition py_slice :: "'a list \<Rightarrow> int \<Rightarrow> int \<Rightarrow> 'a list" where
  "py_slice xs a b =
     (let n = int (length xs);
          a' = (if a < 0 then max 0 (n + a) else min a n);
          b' = (if b < 0 then max 0 (n + b) else min b n)
      in take (nat (b' - a')) (drop (nat a') xs))"

text \<open>
  \<open>Tensor.view(rows, cols)\<close> of a one-dimensional tensor. A size of \<open>-1\<close> asks torch to infer
  that dimension; with the sizes \<open>(batch_size, seq_len + 1)\<close> this is reached only when both
  are \<open>-1\<close>, which torch rejects as every other negative size.
\<close>

definition view2d :: "'a list \<Rightarrow> int \<Rightarrow> int \<Rightarrow> error + 'a list list" where
  "view2d xs rows cols =
     (if rows < 0 \<or> cols < 0 \<or> rows * cols \<noteq> int (length xs) then Inl RuntimeError
      else Inr (map (\<lambda>i. take (nat cols) (drop (i * nat cols) xs)) [0..<nat rows]))"

text \<open>\<open>.long()\<close> on a uint16 tensor: zero extension to int64.\<close>

definition long :: "token \<Rightarrow> 64 word" where
  "long t = ucast t"

text \<open>The body of the loop of \<open>_iter_shard\<close> for one slice index.\<close>

definition make_batch :: "TokenDataset \<Rightarrow> token list \<Rightarrow> nat \<Rightarrow> error + batch" where
  "make_batch ds shard slice_idx =
     (case view2d (py_slice shard (int slice_idx * toks_per_batch ds)
                                  ((int slice_idx + 1) * toks_per_batch ds))
                  (batch_size ds) (seq_len ds + 1) of
        Inl e \<Rightarrow> Inl e
      | Inr rows \<Rightarrow> Inr (map (\<lambda>row. map long (butlast row)) rows,
                        map (\<lambda>row. map long (tl row)) rows))"

text \<open>
  Running a generator to its end: the items it yields, or the exception it raises (the items
  yielded before an exception are not kept).
\<close>

fun collect :: "('a \<Rightarrow> error + 'b) \<Rightarrow> 'a list \<Rightarrow> error + 'b list" where
  "collect f [] = Inr []"
| "collect f (x # xs) =
     (case f x of
        Inl e \<Rightarrow> Inl e
      | Inr y \<Rightarrow> (case collect f xs of Inl e \<Rightarrow> Inl e | Inr ys \<Rightarrow> Inr (y # ys)))"

text \<open>
  \<open>math.floor(shard.shape[0] / self.toks_per_batch)\<close>, with the true division taken exactly
  (a float quotient is exact enough for the floor below \<open>2 ^ 53\<close> tokens).
\<close>

definition n_slices_of :: "TokenDataset \<Rightarrow> token list \<Rightarrow> error + int" where
  "n_slices_of ds shard =
     (case py_truediv (real (length shard)) (toks_per_batch ds) of
        Inl e \<Rightarrow> Inl e
      | Inr q \<Rightarrow> Inr \<lfloor>q\<rfloor>)"

text \<open>\<open>torch.randperm(n_slices) if shuffle else range(n_slices)\<close>; \<open>randperm\<close> rejects \<open>n < 0\<close>.\<close>

definition slice_indices_of :: "rng \<Rightarrow> int \<Rightarrow> bool \<Rightarrow> error + nat list" where
  "slice_indices_of r n_slices shuffle =
     (if shuffle then (if n_slices < 0 then Inl RuntimeError else Inr (randperm r (nat n_slices)))
      else Inr [0..<nat n_slices])"

definition iter_shard :: "TokenDataset \<Rightarrow> rng \<Rightarrow> token list \<Rightarrow> bool \<Rightarrow> error + batch list" where
  "iter_shard ds r shard shuffle =
     (case n_slices_of ds shard of
        Inl e \<Rightarrow> Inl e
      | Inr n_slices \<Rightarrow>
          (case slice_indices_of r n_slices shuffle of
             Inl e \<Rightarrow> Inl e
           | Inr slice_indices \<Rightarrow> collect (make_batch ds shard) slice_indices))"

text \<open>
  \<open>np.memmap(path, dtype=np.uint16, mode="r", offset=k)\<close> is a parameter: \<open>mm path k\<close> is the
  token array it returns, or \<open>None\<close> when it raises.
\<close>

type_synonym memmap = "string \<Rightarrow> int \<Rightarrow> token list option"

text \<open>
  What numpy's \<open>np.memmap\<close> does over a file system that holds the tokens of each shard
  file: it maps the part of the file from the byte offset to the end. It raises when the
  file is missing or empty, when the offset is negative or lies beyond the end of the file,
  and when the bytes left are not a whole number of 2-byte tokens.
\<close>

type_synonym file_system = "string \<Rightarrow> token list option"

definition np_memmap :: "file_system \<Rightarrow> memmap" where
  "np_memmap fs path byte_offset =
     (case fs path of
        None \<Rightarrow> None
      | Some toks \<Rightarrow>
          if toks = [] \<or> byte_offset < 0 \<or> odd byte_offset
             \<or> 2 * int (length toks) < byte_offset
          then None
          else Some (drop (nat (byte_offset div 2)) toks))"

definition open_shard :: "memmap \<Rightarrow> string \<Rightarrow> int \<Rightarrow> error + token list" where
  "open_shard mm path byte_offset =
     (case mm path byte_offset of None \<Rightarrow> Inl OpenError | Some shard \<Rightarrow> Inr shard)"

text \<open>
  The body of the inner loop of \<open>TokenDataset.__iter__\<close>: the batches of one visit of one
  shard by the training streamer. \<open>torch.randint(0, high)\<close> rejects \<open>high \<le> 0\<close>.
\<close>

definition train_visit_shard :: "TokenDataset \<Rightarrow> memmap \<Rightarrow> rng \<Rightarrow> string \<Rightarrow> error + batch list" where
  "train_visit_shard ds mm r path =
     (if toks_per_batch ds \<le> 0 then Inl RuntimeError
      else let offset = randint r 0 (toks_per_batch ds) in
        (case open_shard mm path (offset * 2) of
           Inl e \<Rightarrow> Inl e
         | Inr shard \<Rightarrow> iter_shard ds r shard True))"

text \<open>
  \<open>EvalTokenDataset.__iter__\<close>, run to its end. \<open>worker_info\<close> is \<open>None\<close> in the main process
  and the number of workers inside a data-loading worker.
\<close>

definition eval_visit_shard :: "TokenDataset \<Rightarrow> memmap \<Rightarrow> rng \<Rightarrow> string \<Rightarrow> error + batch list" where
  "eval_visit_shard ds mm r path =
     (case open_shard mm path 0 of
        Inl e \<Rightarrow> Inl e
      | Inr shard \<Rightarrow> iter_shard ds r shard False)"

definition EvalTokenDataset_iter ::
  "TokenDataset \<Rightarrow> nat option \<Rightarrow> memmap \<Rightarrow> rng \<Rightarrow> error + batch list" where
  "EvalTokenDataset_iter ds worker_info mm r =
     (if \<not> (worker_info = None \<or> worker_info = Some 1) then Inl AssertionError
      else (case collect (eval_visit_shard ds mm r) (shards ds) of
              Inl e \<Rightarrow> Inl e
            | Inr bss \<Rightarrow> Inr (concat bss)))"

section \<open>Loss, gradient accumulation and evaluation (\<open>llm_pretrain.py\<close>, main block)\<close>

text \<open>
  The model: its parameters, the gradients accumulated on them, and the \<open>training\<close> flag
  that \<open>model.train()\<close> sets and \<open>model.eval()\<close> clears.
\<close>

record ('p, 'g) model =
  params :: 'p
  grads :: 'g
  training :: bool

text \<open>
  The forward pass of the language model is a parameter: from the parameters, the mode and
  a token tensor to one row of logits per position of each sequence.
\<close>

type_synonym 'p forward = "'p \<Rightarrow> bool \<Rightarrow> tensor2d \<Rightarrow> real list list list"

text \<open>
  \<open>torch.nn.functional.cross_entropy\<close> with its default mean reduction: the negative
  log-softmax of the logits at the label, averaged over the rows.
\<close>

definition token_nll :: "real list \<Rightarrow> 64 word \<Rightarrow> real" where
  "token_nll logits y = ln (\<Sum>z\<leftarrow>logits. exp z) - logits ! unat y"

definition cross_entropy :: "real list list \<Rightarrow> 64 word list \<Rightarrow> real" where
  "cross_entropy logits labels =
     (\<Sum>(z, y)\<leftarrow>zip logits labels. token_nll z y) / real (length labels)"

definition get_loss :: "'p forward \<Rightarrow> ('p, 'g) model \<Rightarrow> tensor2d \<Rightarrow> tensor2d \<Rightarrow> real" where
  "get_loss fwd m tokens labels =
     (let logits = concat (fwd (params m) (training m) tokens)
      in cross_entropy logits (concat labels))"

text \<open>
  \<open>loss.backward()\<close> adds the gradient of the loss to the gradients held by the model. The
  gradient of \<open>get_loss\<close> at given parameters, mode and batch is a parameter.
\<close>

type_synonym ('p, 'g) loss_grad = "'p \<Rightarrow> bool \<Rightarrow> batch \<Rightarrow> 'g"

definition backward :: "('p, 'g::comm_monoid_add) loss_grad \<Rightarrow> ('p, 'g) model \<Rightarrow> batch \<Rightarrow> ('p, 'g) model" where
  "backward dloss m b = m\<lparr>grads := grads m + dloss (params m) (training m) b\<rparr>"

text \<open>
  One pass of the body of \<open>for _ in range(args.gradient_accumulation)\<close>. The state is the
  model, the number of batches drawn from \<open>dloader\<close> so far, and the variable \<open>loss\<close>.
\<close>

definition sub_step ::
  "'p forward \<Rightarrow> ('p, 'g::comm_monoid_add) loss_grad \<Rightarrow> (nat \<Rightarrow> batch) \<Rightarrow>
   ('p, 'g) model \<times> nat \<times> real option \<Rightarrow> ('p, 'g) model \<times> nat \<times> real option" where
  "sub_step fwd dloss dloader st =
     (case st of (m, drawn, _) \<Rightarrow>
        (let (tokens, labels) = dloader drawn;
             loss = get_loss fwd m tokens labels
         in (backward dloss m (tokens, labels), drawn + 1, Some loss)))"

definition accumulating ::
  "'p forward \<Rightarrow> ('p, 'g::comm_monoid_add) loss_grad \<Rightarrow> (nat \<Rightarrow> batch) \<Rightarrow> int \<Rightarrow>
   ('p, 'g) model \<times> nat \<times> real option \<Rightarrow> ('p, 'g) model \<times> nat \<times> real option" where
  "accumulating fwd dloss dloader gradient_accumulation st =
     (sub_step fwd dloss dloader ^^ nat gradient_accumulation) st"

text \<open>
  The validation block of the training loop, entered with the entries of
  \<open>args.val_dataset_dir\<close>. Under \<open>torch.no_grad()\<close> no gradient is accumulated. The result
  is the model after the block and \<open>val_loss\<close>.
\<close>

definition sum_losses :: "'p forward \<Rightarrow> ('p, 'g) model \<Rightarrow> batch list \<Rightarrow> real \<times> int" where
  "sum_losses fwd m batches =
     fold (\<lambda>(tokens, labels) (total_loss, n_batches).
             (total_loss + get_loss fwd m tokens labels, n_batches + 1)) batches (0, 0)"

definition evaluation_block ::
  "'p forward \<Rightarrow> string list \<Rightarrow> int \<Rightarrow> int \<Rightarrow> memmap \<Rightarrow> rng \<Rightarrow> ('p, 'g) model \<Rightarrow>
   error + ('p, 'g) model \<times> real" where
  "evaluation_block fwd val_listing bsize slen mm r m =
     (case TokenDataset_init val_listing bsize slen of
        Inl e \<Rightarrow> Inl e
      | Inr val_ds \<Rightarrow>
          (let m1 = m\<lparr>training := False\<rparr> in
           (case EvalTokenDataset_iter val_ds (Some 1) mm r of
              Inl e \<Rightarrow> Inl e
            | Inr batches \<Rightarrow>
                (case sum_losses fwd m1 batches of (total_loss, n_batches) \<Rightarrow>
                   (case py_truediv total_loss n_batches of
                      Inl e \<Rightarrow> Inl e
                    | Inr val_loss \<Rightarrow> Inr (m1\<lparr>training := True\<rparr>, val_loss))))))"

text \<open>
  The training loop. \<open>args\<close> holds the command-line arguments the loop reads (with the
  schedule built from \<open>lr_schedule_kwargs\<close>); \<open>world\<close> holds what the loop is run against:
  the forward pass and the gradient of the loss, the batches \<open>next(dloader)\<close> returns, the
  optimizer (\<open>set_lr\<close> writes the rate into every parameter group, \<open>optim_step\<close> returns the
  new optimizer state and parameters), the entries of a directory, \<open>np.memmap\<close> and the
  random source. The logging sink, the progress bar, the profiler and the checkpoint file
  are written but never read by the loop, and are left out of the state.
\<close>

record args =
  a_n_steps :: int
  a_batch_size :: int
  a_seq_len :: int
  a_gradient_accumulation :: int
  a_lr_schedule :: "LRSchedule option"
  a_val_dataset_dir :: "string option"
  a_val_interval :: int

record ('p, 'g, 'o) world =
  w_forward :: "'p forward"
  w_dloss :: "('p, 'g) loss_grad"
  w_dloader :: "nat \<Rightarrow> batch"
  w_set_lr :: "real \<Rightarrow> 'o \<Rightarrow> 'o"
  w_optim_step :: "'o \<Rightarrow> ('p, 'g) model \<Rightarrow> 'o \<times> 'p"
  w_listdir :: "string \<Rightarrow> string list"
  w_memmap :: memmap
  w_rng :: rng

text \<open>The variables of the loop: \<open>model\<close>, the batches drawn, \<open>loss\<close>, \<open>step\<close> and \<open>optim\<close>.\<close>

record ('p, 'g, 'o) loop_state =
  ls_model :: "('p, 'g) model"
  ls_drawn :: nat
  ls_loss :: "real option"
  ls_step :: int
  ls_optim :: 'o


definition update_lr ::
  "LRSchedule option \<Rightarrow> (real \<Rightarrow> 'o \<Rightarrow> 'o) \<Rightarrow> int \<Rightarrow> 'o \<Rightarrow> error + 'o" where
  "update_lr lr_schedule set_lr step_no opt =
     (case lr_schedule of
        None \<Rightarrow> Inr opt
      | Some s \<Rightarrow> (case get_lr s step_no of Inl e \<Rightarrow> Inl e | Inr v \<Rightarrow> Inr (set_lr v opt)))"

text \<open>
  The body of the loop up to the validation block: accumulation, the rate update, the
  logging every 50 steps (which reads \<open>loss\<close>, unbound when no sub-step ran),
  \<open>optim.step()\<close>, \<open>optim.zero_grad()\<close> and \<open>step += 1\<close>.
\<close>

definition pre_validation ::
  "('p, 'g::comm_monoid_add, 'o) world \<Rightarrow> args \<Rightarrow> ('p, 'g, 'o) loop_state \<Rightarrow>
   error + ('p, 'g, 'o) loop_state" where
  "pre_validation w a st =
     (case accumulating (w_forward w) (w_dloss w) (w_dloader w) (a_gradient_accumulation a)
             (ls_model st, ls_drawn st, ls_loss st) of
        (m1, drawn1, loss1) \<Rightarrow>
          (case update_lr (a_lr_schedule a) (w_set_lr w) (ls_step st) (ls_optim st) of
             Inl e \<Rightarrow> Inl e
           | Inr opt1 \<Rightarrow>
               if ls_step st mod 50 = 0 \<and> loss1 = None then Inl NameError
               else (case w_optim_step w opt1 m1 of
                       (opt2, params2) \<Rightarrow>
                         Inr \<lparr>ls_model = m1\<lparr>params := params2, grads := 0\<rparr>,
                              ls_drawn = drawn1, ls_loss = loss1,
                              ls_step = ls_step st + 1, ls_optim = opt2\<rparr>)))"

text \<open>The validation block with its guard.\<close>

definition validation ::
  "('p, 'g, 'o) world \<Rightarrow> args \<Rightarrow> ('p, 'g, 'o) loop_state \<Rightarrow> error + ('p, 'g, 'o) loop_state" where
  "validation w a st =
     (case a_val_dataset_dir a of
        Some dir \<Rightarrow>
          if 0 < a_val_interval a \<and> ls_step st mod a_val_interval a = 0 then
            (case evaluation_block (w_forward w) (w_listdir w dir) (a_batch_size a) (a_seq_len a)
                    (w_memmap w) (w_rng w) (ls_model st) of
               Inl e \<Rightarrow> Inl e
             | Inr (m', val_loss) \<Rightarrow> Inr (st\<lparr>ls_model := m'\<rparr>))
          else Inr st
      | None \<Rightarrow> Inr st)"

definition iteration ::
  "('p, 'g::comm_monoid_add, 'o) world \<Rightarrow> args \<Rightarrow> ('p, 'g, 'o) loop_state \<Rightarrow>
   error + ('p, 'g, 'o) loop_state" where
  "iteration w a st =
     (case pre_validation w a st of Inl e \<Rightarrow> Inl e | Inr st1 \<Rightarrow> validation w a st1)"

text \<open>The loop \<open>while step < args.n_steps\<close>, run to its end.\<close>

function training_loop ::
  "('p, 'g::comm_monoid_add, 'o) world \<Rightarrow> args \<Rightarrow> ('p, 'g, 'o) loop_state \<Rightarrow>
   error + ('p, 'g, 'o) loop_state" where
  "training_loop w a st =
     (if ls_step st < a_n_steps a then
        (case iteration w a st of Inl e \<Rightarrow> Inl e | Inr st' \<Rightarrow> training_loop w a st')
      else Inr st)"
  by pat_completeness auto
termination
proof (relation "measure (\<lambda>(w, a, st). nat (a_n_steps a - ls_step st))")
  show "wf (measure (\<lambda>(w, a, st). nat (a_n_steps a - ls_step st)))" by simp
next
  fix w :: "('p, 'g::comm_monoid_add, 'o) world" and a st st'
  assume less: "ls_step st < a_n_steps a" and it: "iteration w a st = Inr st'"
  from it obtain st1 where pre: "pre_validation w a st = Inr st1"
    and val: "validation w a st1 = Inr st'"
    unfolding iteration_def by (cases "pre_validation w a st") simp_all
  obtain m1 drawn1 loss1 where acc:
    "accumulating (w_forward w) (w_dloss w) (w_dloader w) (a_gradient_accumulation a)
       (ls_model st, ls_drawn st, ls_loss st) = (m1, drawn1, loss1)"
    by (metis prod_cases3)
  from pre obtain opt1 where
    "update_lr (a_lr_schedule a) (w_set_lr w) (ls_step st) (ls_optim st) = Inr opt1"
    unfolding pre_validation_def acc by (simp split: sum.splits)
  with pre have "ls_step st1 = ls_step st + 1"
    unfolding pre_validation_def acc
    by (simp split: if_splits prod.splits) auto
  moreover from val have "ls_step st' = ls_step st1"
    by (auto simp: validation_def split: option.splits sum.splits if_splits)
  ultimately show "((w, a, st'), (w, a, st))
      \<in> measure (\<lambda>(w, a, st). nat (a_n_steps a - ls_step st))"
    using less by simp
qed

declare training_loop.simps [simp del]

text \<open>
  The states in which the loop stands at its head \<open>while step < args.n_steps\<close>, started
  from \<open>init\<close>.
\<close>

inductive loop_head ::
  "('p, 'g::comm_monoid_add, 'o) world \<Rightarrow> args \<Rightarrow> ('p, 'g, 'o) loop_state \<Rightarrow>
   ('p, 'g, 'o) loop_state \<Rightarrow> bool"
  for w a init where
    head_init: "loop_head w a init init"
  | head_next: "loop_head w a init st \<Longrightarrow> ls_step st < a_n_steps a \<Longrightarrow>
                iteration w a st = Inr st' \<Longrightarrow> loop_head w a init st'"

section \<open>Quantization configurator (\<open>train_utils.py\<close>, \<open>quantize_model\<close>)\<close>

text \<open>
  The keyword arguments given to \<open>Int8QTConfig\<close>; \<open>None\<close> is an argument left at its default.
  The two rewriting functions of module \<open>subclass\<close> are parameters: \<open>q8 model config\<close> for
  \<open>quantize_linear_weight_int8\<close> (\<open>config = None\<close> when no config is passed) and \<open>q4 model\<close>
  for \<open>quantize_linear_weight_int4\<close>, each returning the rewritten model or an exception.
\<close>

datatype Int8QTConfig =
  Int8QTConfig (activation: "string option") (grad_weight_compute: "string option")

definition quantize_model ::
  "('m \<Rightarrow> Int8QTConfig option \<Rightarrow> error + 'm) \<Rightarrow> ('m \<Rightarrow> error + 'm) \<Rightarrow> 'm \<Rightarrow> string option \<Rightarrow>
   error + 'm" where
  "quantize_model q8 q4 m quantization =
     (if quantization = Some ''int8'' then q8 m None
      else if quantization = Some ''int8_activation_int8'' then
        q8 m (Some (Int8QTConfig (Some ''int8'') None))
      else if quantization = Some ''int8_activation_int8_sr'' then
        q8 m (Some (Int8QTConfig (Some ''int8_sr'') None))
      else if quantization = Some ''int8_activation_int8_grad_weight_int8'' then
        q8 m (Some (Int8QTConfig (Some ''int8'') (Some ''int8'')))
      else if quantization = Some ''int8_activation_int8_sr_grad_weight_int8_sr'' then
        q8 m (Some (Int8QTConfig (Some ''int8_sr'') (Some ''int8_sr'')))
      else if quantization = Some ''int4'' then q4 m
      else (case quantization of
              Some name \<Rightarrow> Inl (ValueError name)
            | None \<Rightarrow> Inr m))"

definition recognized_names :: "string list" where
  "recognized_names =
     [''int8'', ''int8_activation_int8'', ''int8_activation_int8_sr'',
      ''int8_activation_int8_grad_weight_int8'',
      ''int8_activation_int8_sr_grad_weight_int8_sr'', ''int4'']"

section \<open>Concrete inputs\<close>

text \<open>Small concrete inputs on which the definitions above are evaluated below.\<close>

definition example_rng :: rng where
  "example_rng = \<lparr>randperm = (\<lambda>n. rev [0..<n]), randint = (\<lambda>low high. low)\<rparr>"

definition example_fs :: file_system where
  "example_fs path =
     (if path = ''a.bin'' then Some [1, 2, 3, 4, 5]
      else if path = ''b.bin'' then Some [6, 7, 0, 1]
      else None)"

definition example_memmap :: memmap where
  "example_memmap = np_memmap example_fs"

definition late_rng :: rng where
  "late_rng = \<lparr>randperm = (\<lambda>n. [0..<n]), randint = (\<lambda>low high. high - 1)\<rparr>"

definition example_forward :: "unit forward" where
  "example_forward p t tokens = map (map (\<lambda>_. [0, 0, 0, 0, 0, 0, 0, 0])) tokens"

definition example_dloss :: "(unit, int) loss_grad" where
  "example_dloss p t b = int (length (fst b)) + 1"

definition example_dloader :: "nat \<Rightarrow> batch" where
  "example_dloader k = ([[of_nat k]], [[of_nat k + 1]])"



section \<open>Properties of the learning-rate schedule\<close>

lemma py_int_mono: "x \<le> y \<Longrightarrow> py_int x \<le> py_int y"
proof -
  assume xy: "x \<le> y"
  consider "0 \<le> x" | "x < 0" "0 \<le> y" | "x < 0" "y < 0" by linarith
  then show ?thesis
  proof cases
    case 1
    with xy show ?thesis by (simp add: py_int_def floor_mono)
  next
    case 2
    then have "\<lceil>x\<rceil> \<le> 0" and "0 \<le> \<lfloor>y\<rfloor>" by simp_all
    then have "\<lceil>x\<rceil> \<le> \<lfloor>y\<rfloor>" by linarith
    with 2 show ?thesis by (simp add: py_int_def)
  next
    case 3
    with xy show ?thesis by (simp add: py_int_def ceiling_mono)
  qed
qed

lemma py_int_le_self: "0 \<le> n \<Longrightarrow> x \<le> real_of_int n \<Longrightarrow> py_int x \<le> n"
  using py_int_mono [of x "real_of_int n"] by (simp add: py_int_def)

text \<open>
  C2. For a schedule built from fractions with \<open>warmup + decay \<le> 1\<close> and a non-negative
  decay fraction over a positive number of steps, construction succeeds, the rate at step 0
  is 0 when the warmup boundary is positive, the rate is the base rate on the whole constant
  phase, and the rate at the last step count is 0.
\<close>

theorem LRSchedule_boundary_values:
  assumes "0 \<le> decay" and "warmup + decay \<le> 1" and "0 < n_steps"
    and "dtype = ''linear'' \<or> dtype = ''cosine''"
  shows "\<exists>s. LRSchedule_init base_lr n_steps warmup decay dtype = Inr s
           \<and> (0 < t1 s \<longrightarrow> get_lr s 0 = Inr 0)
           \<and> (\<forall>step. t1 s \<le> step \<and> step < t2 s \<longrightarrow> get_lr s step = Inr base_lr)
           \<and> get_lr s n_steps = Inr 0"
proof -
  define a where "a = py_int (real_of_int n_steps * warmup)"
  define b where "b = py_int (real_of_int n_steps * (1 - decay))"
  define s where "s = \<lparr>lr = base_lr, t1 = a, t2 = b, t3 = n_steps, decay_type = dtype\<rparr>"
  have "real_of_int n_steps * warmup \<le> real_of_int n_steps * (1 - decay)"
    using assms(2,3) by (intro mult_left_mono) simp_all
  then have ab: "a \<le> b"
    unfolding a_def b_def by (rule py_int_mono)
  have "real_of_int n_steps * (1 - decay) \<le> real_of_int n_steps * 1"
    using assms(1,3) by (intro mult_left_mono) simp_all
  then have bn: "b \<le> n_steps"
    unfolding b_def using assms(3) by (intro py_int_le_self) simp_all
  have init: "LRSchedule_init base_lr n_steps warmup decay dtype = Inr s"
    using ab assms(4) by (auto simp: LRSchedule_init_def Let_def a_def b_def s_def)
  have zero: "0 < t1 s \<longrightarrow> get_lr s 0 = Inr 0"
    by (simp add: get_lr_def py_truediv_def s_def)
  have const: "\<forall>step. t1 s \<le> step \<and> step < t2 s \<longrightarrow> get_lr s step = Inr base_lr"
    by (simp add: get_lr_def s_def)
  have final: "get_lr s n_steps = Inr 0"
    using ab bn by (simp add: get_lr_def s_def)
  from init zero const final show ?thesis by blast
qed

theorem LRSchedule_boundary_values_witness:
  "\<exists>s. LRSchedule_init (3 / 10000) 1000 (1 / 10) (1 / 5) ''linear'' = Inr s
           \<and> (0 < t1 s \<longrightarrow> get_lr s 0 = Inr 0)
           \<and> (\<forall>step. t1 s \<le> step \<and> step < t2 s \<longrightarrow> get_lr s step = Inr (3 / 10000))
           \<and> get_lr s 1000 = Inr 0"
  using LRSchedule_boundary_values [of "1 / 5" "1 / 10" 1000 "''linear''" "3 / 10000"]
  by simp


text \<open>
  C7. When the warmup boundary \<open>t1\<close> is 0, the rate is the base rate at every step of
  \<open>[0, t2)\<close>, and \<open>get_lr\<close> raises nothing at any non-negative step: the division by \<open>t1\<close>
  is behind the test \<open>step < t1\<close>, which no such step passes.
\<close>

theorem get_lr_no_warmup:
  assumes "LRSchedule_init base_lr n_steps warmup decay dtype = Inr s"
    and "t1 s = 0" and "0 \<le> step"
  shows "(step < t2 s \<longrightarrow> get_lr s step = Inr base_lr) \<and> (\<forall>e. get_lr s step \<noteq> Inl e)"
proof -
  from assms(1) have l: "lr s = base_lr"
    by (auto simp: LRSchedule_init_def Let_def split: if_splits)
  from assms(2,3) have nw: "\<not> step < t1 s" by simp
  have a: "step < t2 s \<longrightarrow> get_lr s step = Inr base_lr"
    using nw l by (simp add: get_lr_def)
  have b: "\<forall>e. get_lr s step \<noteq> Inl e"
    using nw by (auto simp: get_lr_def py_truediv_def)
  from a b show ?thesis by blast
qed

theorem get_lr_no_warmup_witness:
  "LRSchedule_init (3 / 10000) 1000 0 (1 / 5) ''cosine''
     = Inr \<lparr>lr = 3 / 10000, t1 = 0, t2 = 800, t3 = 1000, decay_type = ''cosine''\<rparr>
   \<and> get_lr \<lparr>lr = 3 / 10000, t1 = 0, t2 = 800, t3 = 1000, decay_type = ''cosine''\<rparr> 0
       = Inr (3 / 10000)"
proof -
  have i: "LRSchedule_init (3 / 10000) 1000 0 (1 / 5) ''cosine''
     = Inr \<lparr>lr = 3 / 10000, t1 = 0, t2 = 800, t3 = 1000, decay_type = ''cosine''\<rparr>"
    by (simp add: LRSchedule_init_def py_int_def)
  from get_lr_no_warmup [OF i, of 0] i show ?thesis by simp
qed

section \<open>Properties of the quantization configurator\<close>

text \<open>
  C8. A name outside the six recognized ones makes \<open>quantize_model\<close> raise \<open>ValueError\<close>
  (the exception by which the code reports a configuration error) naming it; with no name
  the model is returned untouched; with a recognized name \<open>quantize_model\<close> raises nothing
  itself, its outcome being the outcome of the one rewriting function it calls.
\<close>

theorem quantize_model_names:
  "(name \<notin> set recognized_names \<longrightarrow> quantize_model q8 q4 m (Some name) = Inl (ValueError name))
   \<and> quantize_model q8 q4 m None = Inr m
   \<and> quantize_model q8 q4 m (Some ''int8'') = q8 m None
   \<and> quantize_model q8 q4 m (Some ''int8_activation_int8'')
       = q8 m (Some (Int8QTConfig (Some ''int8'') None))
   \<and> quantize_model q8 q4 m (Some ''int8_activation_int8_sr'')
       = q8 m (Some (Int8QTConfig (Some ''int8_sr'') None))
   \<and> quantize_model q8 q4 m (Some ''int8_activation_int8_grad_weight_int8'')
       = q8 m (Some (Int8QTConfig (Some ''int8'') (Some ''int8'')))
   \<and> quantize_model q8 q4 m (Some ''int8_activation_int8_sr_grad_weight_int8_sr'')
       = q8 m (Some (Int8QTConfig (Some ''int8_sr'') (Some ''int8_sr'')))
   \<and> quantize_model q8 q4 m (Some ''int4'') = q4 m"
  by (simp add: quantize_model_def recognized_names_def)

theorem quantize_model_names_witness:
  "''fp8'' \<notin> set recognized_names
   \<and> quantize_model (\<lambda>m c. Inr (Suc m)) (\<lambda>m. Inr (m + 2)) (0::nat) (Some ''fp8'')
       = Inl (ValueError ''fp8'')
   \<and> quantize_model (\<lambda>m c. Inr (Suc m)) (\<lambda>m. Inr (m + 2)) (0::nat) None = Inr 0
   \<and> quantize_model (\<lambda>m c. Inr (Suc m)) (\<lambda>m. Inr (m + 2)) (0::nat) (Some ''int8'') = Inr 1
   \<and> quantize_model (\<lambda>m c. Inr (Suc m)) (\<lambda>m. Inr (m + 2)) (0::nat) (Some ''int4'') = Inr 2"
proof -
  have n: "''fp8'' \<notin> set recognized_names" by (simp add: recognized_names_def)
  from quantize_model_names [of "''fp8''" "\<lambda>m c. Inr (Suc m)" "\<lambda>m. Inr (m + 2)" "0::nat"] n
  show ?thesis by simp
qed

section \<open>Properties of the shard store and the batch streamers\<close>

text \<open>
  C4, as the code has it. Over a directory with no shard file the constructor returns a
  dataset with an empty shard list; it raises nothing.
\<close>

theorem TokenDataset_init_no_shards_counterexample:
  "TokenDataset_init [''notes.txt''] 4 2048
     = Inr \<lparr>shards = [], batch_size = 4, seq_len = 2048, toks_per_batch = 8196\<rparr>"
  by (simp add: TokenDataset_init_def glob_bin_def ends_with_def)

text \<open>
  C4, amended. Construction succeeds whatever the directory holds: the shards are the
  \<open>.bin\<close> entries in sorted order, and there are none when the directory has no such entry.
\<close>

theorem TokenDataset_init_succeeds:
  "\<exists>ds. TokenDataset_init listing bsize slen = Inr ds
     \<and> mset (shards ds) = mset (glob_bin listing) \<and> sorted (shards ds)
     \<and> (glob_bin listing = [] \<longrightarrow> shards ds = [])"
  by (simp add: TokenDataset_init_def)

theorem TokenDataset_init_succeeds_witness:
  "glob_bin [''notes.txt''] = []
   \<and> (\<exists>ds. TokenDataset_init [''notes.txt''] 4 2048 = Inr ds \<and> shards ds = [])"
proof -
  have g: "glob_bin [''notes.txt''] = []" by (simp add: glob_bin_def ends_with_def)
  from TokenDataset_init_succeeds [of "[''notes.txt'']" 4 2048] g show ?thesis by auto
qed

lemma is_rng_example: "is_rng example_rng"
  by (simp add: is_rng_def example_rng_def)

lemma collect_map:
  "(\<And>x. x \<in> set xs \<Longrightarrow> f x = Inr (g x)) \<Longrightarrow> collect f xs = Inr (map g xs)"
  by (induction xs) simp_all

lemma n_slices_of_pos:
  assumes "0 < toks_per_batch ds"
  shows "n_slices_of ds shard = Inr (int (length shard div nat (toks_per_batch ds)))"
proof -
  have "\<lfloor>real (length shard) / real_of_int (toks_per_batch ds)\<rfloor>
          = int (length shard) div toks_per_batch ds"
    using floor_divide_of_int_eq [of "int (length shard)" "toks_per_batch ds", where ?'a = real]
    by simp
  also have "\<dots> = int (length shard div nat (toks_per_batch ds))"
    using assms by (simp add: zdiv_int)
  finally show ?thesis
    using assms by (simp add: n_slices_of_def py_truediv_def)
qed

lemma slice_indices_of_perm:
  assumes "is_rng r"
  shows "\<exists>idxs. slice_indices_of r (int n) shuffle = Inr idxs \<and> mset idxs = mset [0..<n]"
  using assms by (simp add: slice_indices_of_def is_rng_def)

lemma py_slice_inside:
  assumes "0 \<le> a" and "a \<le> b" and "b \<le> int (length xs)"
  shows "py_slice xs a b = take (nat (b - a)) (drop (nat a) xs)"
  using assms by (simp add: py_slice_def Let_def min_def)

lemma row_of_slice:
  assumes "(i + 1) * c \<le> T"
  shows "take c (drop (i * c) (take T (drop (k * T) xs))) = take c (drop (k * T + i * c) xs)"
proof -
  have "drop (i * c) (take T (drop (k * T) xs)) = take (T - i * c) (drop (k * T + i * c) xs)"
    by (simp add: drop_take add.commute)
  moreover have "c \<le> T - i * c" using assms by simp
  ultimately show ?thesis by (simp add: min_def)
qed

lemma butlast_last_tl:
  assumes "2 \<le> length row"
  shows "butlast row @ [last (tl row)] = row"
proof -
  from assms obtain x y zs where "row = x # y # zs"
    by (cases row; cases "tl row") auto
  then show ?thesis by (simp add: last_tl)
qed

lemma make_batch_rows:
  assumes tpb: "toks_per_batch ds = batch_size ds * (seq_len ds + 1)"
    and b: "0 < batch_size ds" and c: "0 \<le> seq_len ds"
    and fits: "(k + 1) * nat (toks_per_batch ds) \<le> length shard"
  shows "make_batch ds shard k =
           Inr (map (\<lambda>i. map long (butlast (take (nat (seq_len ds + 1))
                  (drop (k * nat (toks_per_batch ds) + i * nat (seq_len ds + 1)) shard))))
                  [0..<nat (batch_size ds)],
                map (\<lambda>i. map long (tl (take (nat (seq_len ds + 1))
                  (drop (k * nat (toks_per_batch ds) + i * nat (seq_len ds + 1)) shard))))
                  [0..<nat (batch_size ds)])"
proof -
  define T where "T = nat (toks_per_batch ds)"
  define C where "C = nat (seq_len ds + 1)"
  define B where "B = nat (batch_size ds)"
  have Tpos: "0 < toks_per_batch ds" using tpb b c by simp
  have TBC: "T = B * C"
    unfolding T_def B_def C_def tpb using b c by (simp add: nat_mult_distrib)
  have iT: "int T = toks_per_batch ds" using Tpos by (simp add: T_def)
  have lo: "int k * toks_per_batch ds = int (k * T)" using iT by simp
  have hi: "(int k + 1) * toks_per_batch ds = int ((k + 1) * T)"
    using iT by (simp add: algebra_simps)
  have fits': "(k + 1) * T \<le> length shard" using fits by (simp add: T_def)
  have "py_slice shard (int (k * T)) (int ((k + 1) * T))
          = take (nat (int ((k + 1) * T) - int (k * T))) (drop (nat (int (k * T))) shard)"
    using of_nat_mono [OF fits', where ?'a = int] by (intro py_slice_inside) simp_all
  also have "\<dots> = take T (drop (k * T) shard)"
  proof -
    have "int ((k + 1) * T) - int (k * T) = int T" by (simp add: algebra_simps)
    then show ?thesis by (simp only: nat_int)
  qed
  finally have sl: "py_slice shard (int k * toks_per_batch ds) ((int k + 1) * toks_per_batch ds)
          = take T (drop (k * T) shard)"
    unfolding lo hi .
  have len: "length (take T (drop (k * T) shard)) = T"
    using fits' by simp
  have "batch_size ds * (seq_len ds + 1) = int (length (take T (drop (k * T) shard)))"
    using len iT tpb by simp
  then have v: "view2d (take T (drop (k * T) shard)) (batch_size ds) (seq_len ds + 1)
          = Inr (map (\<lambda>i. take C (drop (i * C) (take T (drop (k * T) shard)))) [0..<B])"
    using b c unfolding view2d_def B_def C_def by simp
  have rows: "map (\<lambda>i. take C (drop (i * C) (take T (drop (k * T) shard)))) [0..<B]
          = map (\<lambda>i. take C (drop (k * T + i * C) shard)) [0..<B]"
  proof (rule map_cong [OF refl])
    fix i assume "i \<in> set [0..<B]"
    then have "i + 1 \<le> B" by simp
    then have "(i + 1) * C \<le> B * C" by (rule mult_le_mono1)
    then have "(i + 1) * C \<le> T" by (simp add: TBC)
    then show "take C (drop (i * C) (take T (drop (k * T) shard)))
                 = take C (drop (k * T + i * C) shard)"
      by (rule row_of_slice)
  qed
  show ?thesis
    unfolding make_batch_def sl v rows
    by (simp add: T_def C_def B_def comp_def)
qed

lemma iter_shard_short:
  assumes "int (length shard) < toks_per_batch ds" and "is_rng r \<or> \<not> shuffle"
  shows "iter_shard ds r shard shuffle = Inr []"
proof -
  from assms(1) have pos: "0 < toks_per_batch ds" by linarith
  then have "length shard div nat (toks_per_batch ds) = 0"
    using assms(1) by simp
  with n_slices_of_pos [OF pos, of shard] have n: "n_slices_of ds shard = Inr 0" by simp
  have "slice_indices_of r 0 shuffle = Inr []"
  proof (cases shuffle)
    case True
    with assms(2) have "mset (randperm r 0) = mset [0..<0]"
      unfolding is_rng_def by blast
    then show ?thesis using True by (simp add: slice_indices_of_def)
  next
    case False
    then show ?thesis by (simp add: slice_indices_of_def)
  qed
  with n show ?thesis by (simp add: iter_shard_def)
qed

text \<open>
  C3. Both streamers make their batches in \<open>iter_shard\<close>: the training one with
  \<open>shuffle = True\<close> on the view opened at its random offset, the evaluation one with
  \<open>shuffle = False\<close>. For positive \<open>batch_size\<close> and \<open>seq_len\<close>, \<open>iter_shard\<close> yields one batch
  per whole slice of the shard, and every batch comes from one slice \<open>k\<close>: row \<open>i\<close> of
  \<open>tokens\<close> and row \<open>i\<close> of \<open>labels\<close> are the contiguous run of \<open>seq_len + 1\<close> tokens at
  position \<open>k * toks_per_batch + i * (seq_len + 1)\<close> without its last and without its first
  element, so \<open>tokens[i]\<close> followed by the last element of \<open>labels[i]\<close> is that run.
\<close>

theorem batch_rows_are_shifted_slices:
  assumes init: "TokenDataset_init listing bsize slen = Inr ds"
    and b: "0 < bsize" and c: "0 < slen" and r: "is_rng r"
  shows "\<exists>batches. iter_shard ds r shard shuffle = Inr batches
           \<and> length batches = length shard div nat (bsize * (slen + 1))
           \<and> (\<forall>(tokens, labels) \<in> set batches.
                 length tokens = nat bsize \<and> length labels = nat bsize
                 \<and> (\<exists>k < length batches. \<forall>i < nat bsize.
                       let row = map long (take (nat (slen + 1))
                                   (drop (k * nat (bsize * (slen + 1)) + i * nat (slen + 1)) shard))
                       in length row = nat (slen + 1)
                          \<and> tokens ! i = butlast row
                          \<and> labels ! i = tl row
                          \<and> tokens ! i @ [last (labels ! i)] = row))"
proof -
  define T where "T = nat (bsize * (slen + 1))"
  define C where "C = nat (slen + 1)"
  define B where "B = nat bsize"
  define N where "N = length shard div T"
  define row where "row = (\<lambda>k i. take C (drop (k * T + i * C) shard))"
  define g where "g = (\<lambda>k. (map (\<lambda>i. map long (butlast (row k i))) [0..<B],
                            map (\<lambda>i. map long (tl (row k i))) [0..<B]))"
  from init have ds: "batch_size ds = bsize" "seq_len ds = slen"
      "toks_per_batch ds = bsize * (slen + 1)"
    by (auto simp: TokenDataset_init_def)
  have Tpos: "0 < bsize * (slen + 1)" using b c by simp
  have TBC: "T = B * C"
    unfolding T_def B_def C_def using b c by (simp add: nat_mult_distrib)
  have Tpos': "0 < T" using Tpos by (simp add: T_def)
  have n: "n_slices_of ds shard = Inr (int N)"
    using n_slices_of_pos [of ds shard] Tpos by (simp add: ds N_def T_def)
  from slice_indices_of_perm [OF r, of N shuffle]
  obtain idxs where idxs: "slice_indices_of r (int N) shuffle = Inr idxs"
    and perm: "mset idxs = mset [0..<N]" by blast
  from perm have set_idxs: "set idxs = {0..<N}"
    by (metis mset_eq_setD set_upt)
  from perm have len_idxs: "length idxs = N"
    by (metis mset_eq_length length_upt diff_zero)
  have fits: "(k + 1) * T \<le> length shard" if "k < N" for k
  proof -
    from that have "k + 1 \<le> N" by simp
    then have "(k + 1) * T \<le> N * T" by (rule mult_le_mono1)
    also have "\<dots> \<le> length shard" by (simp add: N_def)
    finally show ?thesis .
  qed
  have mb: "make_batch ds shard k = Inr (g k)" if "k \<in> set idxs" for k
  proof -
    from that set_idxs have "k < N" by simp
    then have "(k + 1) * nat (toks_per_batch ds) \<le> length shard"
      using fits by (simp add: ds T_def)
    then show ?thesis
      using make_batch_rows [of ds k shard] b c
      by (simp add: ds g_def row_def T_def C_def B_def)
  qed
  have run: "iter_shard ds r shard shuffle = Inr (map g idxs)"
    using n idxs collect_map [of idxs "make_batch ds shard" g] mb
    by (simp add: iter_shard_def)
  have len_row: "length (row k i) = C" if "k < N" "i < B" for k i
  proof -
    from that(2) have "i + 1 \<le> B" by simp
    then have "(i + 1) * C \<le> B * C" by (rule mult_le_mono1)
    then have "k * T + (i + 1) * C \<le> (k + 1) * T" by (simp add: TBC)
    also have "\<dots> \<le> length shard" using fits that(1) by simp
    finally show ?thesis by (simp add: row_def)
  qed
  have C2: "2 \<le> C" using c by (simp add: C_def)
  have each: "length tokens = B \<and> length labels = B
         \<and> (\<exists>k < length (map g idxs). \<forall>i < B.
               let rw = map long (row k i)
               in length rw = C \<and> tokens ! i = butlast rw \<and> labels ! i = tl rw
                  \<and> tokens ! i @ [last (labels ! i)] = rw)"
    if "(tokens, labels) \<in> set (map g idxs)" for tokens labels
  proof -
    from that obtain k where k: "k \<in> set idxs" and tl: "(tokens, labels) = g k" by auto
    from k set_idxs have kN: "k < N" by simp
    from tl have t: "tokens = map (\<lambda>i. map long (butlast (row k i))) [0..<B]"
      and l: "labels = map (\<lambda>i. map long (tl (row k i))) [0..<B]"
      by (simp_all add: g_def)
    have "let rw = map long (row k i)
          in length rw = C \<and> tokens ! i = butlast rw \<and> labels ! i = tl rw
             \<and> tokens ! i @ [last (labels ! i)] = rw" if "i < B" for i
    proof -
      have lr: "length (map long (row k i)) = C" using len_row [OF kN that] by simp
      have ti: "tokens ! i = butlast (map long (row k i))"
        using that by (simp add: t map_butlast)
      have li: "labels ! i = tl (map long (row k i))"
        using that by (simp add: l map_tl)
      have "butlast (map long (row k i)) @ [last (tl (map long (row k i)))] = map long (row k i)"
        using lr C2 by (intro butlast_last_tl) simp
      with lr ti li show ?thesis by (simp add: Let_def)
    qed
    with kN t l show ?thesis by (auto simp: len_idxs)
  qed
  have "\<exists>batches. iter_shard ds r shard shuffle = Inr batches
           \<and> length batches = N
           \<and> (\<forall>(tokens, labels) \<in> set batches.
                 length tokens = B \<and> length labels = B
                 \<and> (\<exists>k < length batches. \<forall>i < B.
                       let rw = map long (row k i)
                       in length rw = C \<and> tokens ! i = butlast rw \<and> labels ! i = tl rw
                          \<and> tokens ! i @ [last (labels ! i)] = rw))"
  proof (intro exI [of _ "map g idxs"] conjI ballI)
    show "iter_shard ds r shard shuffle = Inr (map g idxs)" by (rule run)
    show "length (map g idxs) = N" by (simp add: len_idxs)
  next
    fix tb assume m: "tb \<in> set (map g idxs)"
    obtain tokens labels where tb: "tb = (tokens, labels)" by (cases tb)
    show "case tb of (tokens, labels) \<Rightarrow>
            length tokens = B \<and> length labels = B
            \<and> (\<exists>k < length (map g idxs). \<forall>i < B.
                  let rw = map long (row k i)
                  in length rw = C \<and> tokens ! i = butlast rw \<and> labels ! i = tl rw
                     \<and> tokens ! i @ [last (labels ! i)] = rw)"
      unfolding tb prod.case by (rule each [OF m [unfolded tb]])
  qed
  then show ?thesis
    unfolding N_def T_def C_def B_def row_def .
qed

theorem batch_rows_are_shifted_slices_witness:
  "TokenDataset_init [''a.bin''] 2 2
     = Inr \<lparr>shards = [''a.bin''], batch_size = 2, seq_len = 2, toks_per_batch = 6\<rparr>
   \<and> is_rng example_rng
   \<and> (\<exists>batches.
         iter_shard \<lparr>shards = [''a.bin''], batch_size = 2, seq_len = 2, toks_per_batch = 6\<rparr>
           example_rng [1, 2, 3, 4, 5, 6, 7, 8, 9, 10, 11, 12, 13] True = Inr batches
         \<and> length batches = 2)"
proof -
  have i: "TokenDataset_init [''a.bin''] 2 2
     = Inr \<lparr>shards = [''a.bin''], batch_size = 2, seq_len = 2, toks_per_batch = 6\<rparr>"
    by (simp add: TokenDataset_init_def glob_bin_def ends_with_def)
  have b: "(0::int) < 2" by simp
  from batch_rows_are_shifted_slices [OF i b b is_rng_example,
      of "[1, 2, 3, 4, 5, 6, 7, 8, 9, 10, 11, 12, 13]" True]
  have "\<exists>batches.
         iter_shard \<lparr>shards = [''a.bin''], batch_size = 2, seq_len = 2, toks_per_batch = 6\<rparr>
           example_rng [1, 2, 3, 4, 5, 6, 7, 8, 9, 10, 11, 12, 13] True = Inr batches
         \<and> length batches = 2"
    by auto
  with i is_rng_example show ?thesis by blast
qed

lemma eval_visit_short_file:
  assumes "fs path = Some toks" and "toks \<noteq> []"
    and "int (length toks) < toks_per_batch ds"
  shows "eval_visit_shard ds (np_memmap fs) r path = Inr []"
  using assms iter_shard_short [of toks ds r False]
  by (simp add: eval_visit_shard_def open_shard_def np_memmap_def)

lemma train_visit_offset_beyond_file:
  assumes "fs path = Some toks" and "0 < toks_per_batch ds"
    and "int (length toks) < randint r 0 (toks_per_batch ds)"
  shows "train_visit_shard ds (np_memmap fs) r path = Inl OpenError"
  using assms by (simp add: train_visit_shard_def open_shard_def np_memmap_def Let_def)

text \<open>
  C5. For a shard file of 5 tokens and \<open>toks_per_batch = 36\<close> the shared slicing yields no
  batch and the evaluation streamer yields no batch without raising, as the claim says.
  The training streamer draws its offset from \<open>[0, 36)\<close> whatever the length of the file;
  at the offset 35 the open lies beyond the end of the file and raises, so the visit of the
  training streamer raises where the claim says it yields no batch.
\<close>

theorem train_visit_short_shard_raises:
  "iter_shard \<lparr>shards = [''a.bin''], batch_size = 4, seq_len = 8, toks_per_batch = 36\<rparr>
       late_rng [1, 2, 3, 4, 5] True = Inr []
   \<and> eval_visit_shard \<lparr>shards = [''a.bin''], batch_size = 4, seq_len = 8, toks_per_batch = 36\<rparr>
       example_memmap late_rng ''a.bin'' = Inr []
   \<and> randint late_rng 0 36 = 35
   \<and> train_visit_shard \<lparr>shards = [''a.bin''], batch_size = 4, seq_len = 8, toks_per_batch = 36\<rparr>
       example_memmap late_rng ''a.bin'' = Inl OpenError"
  by code_simp

lemma iter_shard_no_shuffle:
  "iter_shard ds r shard False =
     (case n_slices_of ds shard of
        Inl e \<Rightarrow> Inl e
      | Inr n_slices \<Rightarrow> collect (make_batch ds shard) [0..<nat n_slices])"
  by (simp add: iter_shard_def slice_indices_of_def split: sum.splits)

lemma eval_visit_shard_rng: "eval_visit_shard ds mm r1 = eval_visit_shard ds mm r2"
  by (rule ext) (simp add: eval_visit_shard_def iter_shard_no_shuffle split: sum.splits)

lemma sort_glob_bin_cong:
  assumes "mset listing1 = mset listing2"
  shows "sort (glob_bin listing1) = sort (glob_bin listing2)"
proof -
  from assms have "mset (glob_bin listing1) = mset (glob_bin listing2)"
    by (metis glob_bin_def mset_filter)
  then have "mset (sort (glob_bin listing2)) = mset (glob_bin listing1)" by simp
  then show ?thesis by (rule properties_for_sort) simp
qed

text \<open>
  C6. The evaluation streamer is a function of the directory's entries and the shard
  contents alone: whatever order the entries are enumerated in and whatever the random
  source would return, a pass yields the same batches in the same order, the shards being
  visited in sorted order.
\<close>

theorem eval_streamer_deterministic:
  assumes "mset listing1 = mset listing2"
    and "TokenDataset_init listing1 bsize slen = Inr ds1"
    and "TokenDataset_init listing2 bsize slen = Inr ds2"
  shows "EvalTokenDataset_iter ds1 w mm r1 = EvalTokenDataset_iter ds2 w mm r2
         \<and> sorted (shards ds1)
         \<and> EvalTokenDataset_iter ds1 w mm r1 = EvalTokenDataset_iter ds1 w mm r2"
proof -
  from assms have "ds1 = ds2"
    using sort_glob_bin_cong [OF assms(1)] by (auto simp: TokenDataset_init_def)
  moreover from assms(2) have "sorted (shards ds1)"
    by (auto simp: TokenDataset_init_def)
  ultimately show ?thesis
    by (simp add: EvalTokenDataset_iter_def eval_visit_shard_rng [of _ mm r1 r2])
qed

theorem eval_streamer_deterministic_witness:
  "mset [''b.bin'', ''notes.txt'', ''a.bin''] = mset [''a.bin'', ''b.bin'', ''notes.txt'']
   \<and> EvalTokenDataset_iter
         \<lparr>shards = [''a.bin'', ''b.bin''], batch_size = 1, seq_len = 1, toks_per_batch = 2\<rparr>
         (Some 1) example_memmap example_rng
       = EvalTokenDataset_iter
         \<lparr>shards = [''a.bin'', ''b.bin''], batch_size = 1, seq_len = 1, toks_per_batch = 2\<rparr>
         (Some 1) example_memmap \<lparr>randperm = (\<lambda>n. [0..<n]), randint = (\<lambda>low high. high - 1)\<rparr>"
proof -
  have m: "mset [''b.bin'', ''notes.txt'', ''a.bin''] = mset [''a.bin'', ''b.bin'', ''notes.txt'']"
    by simp
  have i1: "TokenDataset_init [''b.bin'', ''notes.txt'', ''a.bin''] 1 1
     = Inr \<lparr>shards = [''a.bin'', ''b.bin''], batch_size = 1, seq_len = 1, toks_per_batch = 2\<rparr>"
    by (simp add: TokenDataset_init_def glob_bin_def ends_with_def)
  have i2: "TokenDataset_init [''a.bin'', ''b.bin'', ''notes.txt''] 1 1
     = Inr \<lparr>shards = [''a.bin'', ''b.bin''], batch_size = 1, seq_len = 1, toks_per_batch = 2\<rparr>"
    by (simp add: TokenDataset_init_def glob_bin_def ends_with_def)
  from eval_streamer_deterministic [OF m i1 i2] m show ?thesis by blast
qed

section \<open>Properties of the training loop\<close>

lemma sub_step_funpow:
  "(sub_step fwd dloss dloader ^^ n) (m, drawn, l) =
     (m\<lparr>grads := grads m + (\<Sum>k<n. dloss (params m) (training m) (dloader (drawn + k)))\<rparr>,
      drawn + n,
      if n = 0 then l
      else Some (get_loss fwd m (fst (dloader (drawn + n - 1))) (snd (dloader (drawn + n - 1)))))"
proof (induction n)
  case 0
  show ?case by simp
next
  case (Suc n)
  have "(sub_step fwd dloss dloader ^^ Suc n) (m, drawn, l)
          = sub_step fwd dloss dloader ((sub_step fwd dloss dloader ^^ n) (m, drawn, l))"
    by simp
  also have "\<dots> = sub_step fwd dloss dloader
      (m\<lparr>grads := grads m + (\<Sum>k<n. dloss (params m) (training m) (dloader (drawn + k)))\<rparr>,
       drawn + n,
       if n = 0 then l
       else Some (get_loss fwd m (fst (dloader (drawn + n - 1))) (snd (dloader (drawn + n - 1)))))"
    by (simp only: Suc)
  finally have st: "(sub_step fwd dloss dloader ^^ Suc n) (m, drawn, l) = sub_step fwd dloss dloader
      (m\<lparr>grads := grads m + (\<Sum>k<n. dloss (params m) (training m) (dloader (drawn + k)))\<rparr>,
       drawn + n,
       if n = 0 then l
       else Some (get_loss fwd m (fst (dloader (drawn + n - 1))) (snd (dloader (drawn + n - 1)))))" .
  show ?case
    unfolding st
    by (simp add: sub_step_def backward_def get_loss_def case_prod_beta add.assoc)
qed

text \<open>
  C1. Over \<open>g \<ge> 1\<close> sub-steps the accumulating phase draws \<open>g\<close> batches and leaves in the
  gradients what they held before plus the plain sum of the \<open>g\<close> per-batch loss gradients:
  nothing is divided by \<open>g\<close>. The loss of a batch is the sum of the per-token negative
  log-likelihoods divided by the number of tokens of the batch.
\<close>

theorem accumulating_sums_gradients:
  assumes "1 \<le> g"
  shows "accumulating fwd dloss dloader g (m, drawn, l) =
           (m\<lparr>grads := grads m + (\<Sum>k<nat g. dloss (params m) (training m) (dloader (drawn + k)))\<rparr>,
            drawn + nat g,
            Some (get_loss fwd m (fst (dloader (drawn + nat g - 1)))
                                 (snd (dloader (drawn + nat g - 1)))))
         \<and> get_loss fwd m tokens labels =
             (\<Sum>(z, y)\<leftarrow>zip (concat (fwd (params m) (training m) tokens)) (concat labels).
                 token_nll z y) / real (length (concat labels))"
  using assms
  by (simp add: accumulating_def sub_step_funpow get_loss_def cross_entropy_def)

theorem accumulating_sums_gradients_witness:
  "(1::int) \<le> 2
   \<and> accumulating example_forward example_dloss example_dloader 2
       (\<lparr>params = (), grads = 10, training = True\<rparr>, 0, None)
     = (\<lparr>params = (), grads = 14, training = True\<rparr>, 2,
        Some (get_loss example_forward \<lparr>params = (), grads = 10 :: int, training = True\<rparr>
                [[1]] [[2]]))"
proof -
  have g: "(1::int) \<le> 2" by simp
  from accumulating_sums_gradients [OF g, of example_forward example_dloss example_dloader
      "\<lparr>params = (), grads = 10, training = True\<rparr>" 0 None]
  show ?thesis
    by (simp add: example_dloss_def example_dloader_def eval_nat_numeral)
qed

section \<open>Properties of the evaluation block\<close>

lemma snd_fold_losses:
  "snd (fold (\<lambda>(tokens, labels) (total_loss, n_batches).
             (total_loss + get_loss fwd m tokens labels, n_batches + 1)) batches (t, n))
     = n + int (length batches)"
  by (induction batches arbitrary: t n) (simp_all add: case_prod_beta)

lemma snd_sum_losses: "snd (sum_losses fwd m batches) = int (length batches)"
  by (simp add: sum_losses_def snd_fold_losses)

lemma evaluation_block_result:
  assumes "TokenDataset_init val_listing bsize slen = Inr ds"
    and "EvalTokenDataset_iter ds (Some 1) mm r = Inr batches"
  shows "evaluation_block fwd val_listing bsize slen mm r m =
           (if batches = [] then Inl ZeroDivisionError
            else Inr (m\<lparr>training := True\<rparr>,
                      fst (sum_losses fwd (m\<lparr>training := False\<rparr>) batches)
                        / real (length batches)))"
proof -
  obtain t n where tn: "sum_losses fwd (m\<lparr>training := False\<rparr>) batches = (t, n)"
    by (cases "sum_losses fwd (m\<lparr>training := False\<rparr>) batches")
  with snd_sum_losses [of fwd "m\<lparr>training := False\<rparr>" batches]
  have n: "n = int (length batches)" by simp
  show ?thesis
    using assms tn n by (simp add: evaluation_block_def py_truediv_def Let_def)
qed







lemma training_loop_head:
  "training_loop w a st = Inr st' \<Longrightarrow> loop_head w a st st'"
proof (induction w a st rule: training_loop.induct)
  case (1 w a st)
  show ?case
  proof (cases "ls_step st < a_n_steps a")
    case False
    with "1.prems" have "st' = st" by (simp add: training_loop.simps [of w a st])
    then show ?thesis by (simp add: loop_head.head_init)
  next
    case True
    with "1.prems" have "(case iteration w a st of Inl e \<Rightarrow> Inl e
                          | Inr st1 \<Rightarrow> training_loop w a st1) = Inr st'"
      by (simp add: training_loop.simps [of w a st])
    then obtain st1 where it: "iteration w a st = Inr st1"
      and rest: "training_loop w a st1 = Inr st'"
      by (cases "iteration w a st") simp_all
    from "1.IH" [OF True it rest] have tail: "loop_head w a st1 st'" .
    have "loop_head w a st st''" if "loop_head w a st1 st''" for st''
      using that
    proof (induction rule: loop_head.induct)
      case head_init
      show ?case by (rule loop_head.head_next [OF loop_head.head_init True it])
    next
      case (head_next s s')
      then show ?case by (auto intro: loop_head.head_next)
    qed
    with tail show ?thesis by blast
  qed
qed



text \<open>
  C10. When the evaluation stream runs to its end, the evaluation block fails exactly when
  the stream yielded no batch, and then with \<open>ZeroDivisionError\<close>, from the mean
  \<open>total_loss / n_batches\<close>. The stream yields no batch when every shard of the directory
  has fewer than \<open>toks_per_batch\<close> tokens, in particular when the directory has no shard.
\<close>

theorem evaluation_block_zero_batches:
  assumes "TokenDataset_init val_listing bsize slen = Inr ds"
    and "EvalTokenDataset_iter ds (Some 1) mm r = Inr batches"
  shows "(evaluation_block fwd val_listing bsize slen mm r m = Inl ZeroDivisionError)
           = (batches = [])
         \<and> isl (evaluation_block fwd val_listing bsize slen mm r m) = (batches = [])
         \<and> ((\<forall>p \<in> set (shards ds). \<exists>shard. mm p 0 = Some shard
                \<and> int (length shard) < toks_per_batch ds) \<longrightarrow> batches = [])"
proof -
  have a: "(evaluation_block fwd val_listing bsize slen mm r m = Inl ZeroDivisionError)
           = (batches = [])"
    by (simp add: evaluation_block_result [OF assms])
  have b: "isl (evaluation_block fwd val_listing bsize slen mm r m) = (batches = [])"
    by (simp add: evaluation_block_result [OF assms])
  have c: "batches = []"
    if short: "\<forall>p \<in> set (shards ds). \<exists>shard. mm p 0 = Some shard
                \<and> int (length shard) < toks_per_batch ds"
  proof -
    have "eval_visit_shard ds mm r p = Inr []" if "p \<in> set (shards ds)" for p
    proof -
      from short that obtain shard where "mm p 0 = Some shard"
        and "int (length shard) < toks_per_batch ds" by blast
      then show ?thesis
        using iter_shard_short [of shard ds r False]
        by (simp add: eval_visit_shard_def open_shard_def)
    qed
    then have "collect (eval_visit_shard ds mm r) (shards ds) = Inr (map (\<lambda>_. []) (shards ds))"
      by (rule collect_map)
    then have "EvalTokenDataset_iter ds (Some 1) mm r = Inr []"
      by (simp add: EvalTokenDataset_iter_def)
    with assms(2) show ?thesis by simp
  qed
  from a b c show ?thesis by blast
qed

theorem evaluation_block_zero_batches_witness:
  "TokenDataset_init [''a.bin''] 4 8
     = Inr \<lparr>shards = [''a.bin''], batch_size = 4, seq_len = 8, toks_per_batch = 36\<rparr>
   \<and> EvalTokenDataset_iter
       \<lparr>shards = [''a.bin''], batch_size = 4, seq_len = 8, toks_per_batch = 36\<rparr>
       (Some 1) example_memmap example_rng = Inr []
   \<and> evaluation_block example_forward [''a.bin''] 4 8 example_memmap example_rng
       \<lparr>params = (), grads = (0::int), training = True\<rparr> = Inl ZeroDivisionError"
proof -
  have i: "TokenDataset_init [''a.bin''] 4 8
     = Inr \<lparr>shards = [''a.bin''], batch_size = 4, seq_len = 8, toks_per_batch = 36\<rparr>"
    by (simp add: TokenDataset_init_def glob_bin_def ends_with_def)
  have s: "EvalTokenDataset_iter
       \<lparr>shards = [''a.bin''], batch_size = 4, seq_len = 8, toks_per_batch = 36\<rparr>
       (Some 1) example_memmap example_rng = Inr []"
    by code_simp
  from evaluation_block_zero_batches [OF i s, of example_forward
      "\<lparr>params = (), grads = (0::int), training = True\<rparr>"] i s
  show ?thesis by simp
qed

end
